theory Spec2Isabelle
  imports Main "HOL-Library.Char_ord" "HOL-Library.List_Lexorder"
begin

section \<open>Server request builder (src/server/request.ts)\<close>

subsection \<open>Tasks and HTTP methods\<close>

text \<open>
  The enum \<open>RpcTask\<close> is imported from \<open>./constants\<close>; the table \<open>taskToMethod\<close> of
  request.ts has one entry for each of its six members.
\<close>

datatype RpcTask = UPLOAD | LIST | GET | DELETE | UPDATE | CREATE

fun taskToMethod :: "RpcTask \<Rightarrow> string" where
  "taskToMethod UPLOAD = ''POST''"
| "taskToMethod LIST = ''GET''"
| "taskToMethod GET = ''GET''"
| "taskToMethod DELETE = ''DELETE''"
| "taskToMethod UPDATE = ''PATCH''"
| "taskToMethod CREATE = ''POST''"

subsection \<open>Errors\<close>

text \<open>
  Every \<open>throw\<close> of request.ts raises \<open>GoogleGenerativeAIRequestInputError\<close>; the
  message templates are kept as constructors, with the header name they interpolate.
  \<open>TypeError\<close> is what the platform raises (an invalid header, an invalid URL, a
  member access on \<open>undefined\<close>).
\<close>

datatype error_message =
    UnableToConvert
  | CannotSetReserved string
  | OnlyViaApiClient string

datatype error =
    TypeError
  | GoogleGenerativeAIRequestInputError error_message

subsection \<open>The platform's Headers class\<close>

text \<open>
  request.ts builds and iterates \<open>Headers\<close> objects. The class is the platform's (Fetch
  standard); it is modelled here with the behaviour the code depends on: \<open>append\<close>
  normalises the value, rejects an invalid name or value with a TypeError and keeps the
  header list in insertion order; the constructor fills the list by \<open>append\<close>;
  iteration (\<open>entries\<close>) yields the names in lower case, sorted, without duplicates,
  each with its combined value. Strings are byte strings, as the class requires.
\<close>

type_synonym Headers = "(string \<times> string) list"

definition lower_char :: "char \<Rightarrow> char" where
  "lower_char c =
     (if 65 \<le> (of_char c :: nat) \<and> (of_char c :: nat) \<le> 90
      then char_of ((of_char c :: nat) + 32) else c)"

definition lower :: "string \<Rightarrow> string" where
  "lower s = map lower_char s"

definition is_tchar :: "char \<Rightarrow> bool" where
  "is_tchar c =
     (let n = (of_char c :: nat) in
        n \<in> {33, 35, 36, 37, 38, 39, 42, 43, 45, 46, 94, 95, 96, 124, 126}
        \<or> (48 \<le> n \<and> n \<le> 57) \<or> (65 \<le> n \<and> n \<le> 90) \<or> (97 \<le> n \<and> n \<le> 122))"

definition is_header_name :: "string \<Rightarrow> bool" where
  "is_header_name s = (s \<noteq> [] \<and> list_all is_tchar s)"

definition is_http_whitespace :: "char \<Rightarrow> bool" where
  "is_http_whitespace c = ((of_char c :: nat) \<in> {9, 10, 13, 32})"

definition is_value_byte :: "char \<Rightarrow> bool" where
  "is_value_byte c = ((of_char c :: nat) \<notin> {0, 10, 13})"

definition normalize_value :: "string \<Rightarrow> string" where
  "normalize_value v =
     rev (dropWhile is_http_whitespace (rev (dropWhile is_http_whitespace v)))"

definition is_header_value :: "string \<Rightarrow> bool" where
  "is_header_value v =
     (list_all is_value_byte v
      \<and> (v \<noteq> [] \<longrightarrow> (of_char (hd v) :: nat) \<notin> {9, 32} \<and> (of_char (last v) :: nat) \<notin> {9, 32}))"

definition same_name :: "string \<Rightarrow> string \<Rightarrow> bool" where
  "same_name a b = (lower a = lower b)"

definition Headers_append :: "Headers \<Rightarrow> string \<Rightarrow> string \<Rightarrow> error + Headers" where
  "Headers_append h name val =
     (let v = normalize_value val in
      if \<not> is_header_name name \<or> \<not> is_header_value v then Inl TypeError
      else Inr (h @ [(case find (\<lambda>e. same_name (fst e) name) h of
                        Some e \<Rightarrow> fst e | None \<Rightarrow> name, v)]))"

fun Headers_fill :: "Headers \<Rightarrow> (string \<times> string) list \<Rightarrow> error + Headers" where
  "Headers_fill h [] = Inr h"
| "Headers_fill h (e # es) =
     (case Headers_append h (fst e) (snd e) of
        Inl err \<Rightarrow> Inl err
      | Inr h' \<Rightarrow> Headers_fill h' es)"

definition Headers_new :: "(string \<times> string) list \<Rightarrow> error + Headers" where
  "Headers_new init = Headers_fill [] init"

fun join_values :: "string list \<Rightarrow> string" where
  "join_values [] = []"
| "join_values [v] = v"
| "join_values (v # w # vs) = v @ '', '' @ join_values (w # vs)"

definition values_of :: "Headers \<Rightarrow> string \<Rightarrow> string list" where
  "values_of h name = map snd (filter (\<lambda>e. same_name (fst e) name) h)"

definition Headers_get :: "Headers \<Rightarrow> string \<Rightarrow> string option" where
  "Headers_get h name =
     (if values_of h name = [] then None else Some (join_values (values_of h name)))"

definition Headers_entries :: "Headers \<Rightarrow> (string \<times> string) list" where
  "Headers_entries h =
     concat (map (\<lambda>name.
                    if name = ''set-cookie'' then map (\<lambda>v. (name, v)) (values_of h name)
                    else [(name, join_values (values_of h name))])
                 (sort (remdups (map (\<lambda>e. lower (fst e)) h))))"

definition Headers_wf :: "Headers \<Rightarrow> bool" where
  "Headers_wf h = list_all (\<lambda>e. is_header_name (fst e) \<and> is_header_value (snd e)) h"

subsection \<open>The platform's URL class\<close>

text \<open>
  A parsed URL holds its components; \<open>origin\<close> stands for everything the serialiser
  writes before the path (scheme, credentials, host, port). Parsing (\<open>new URL(s)\<close>) and the
  \<open>pathname\<close> setter are the platform's and are taken as parameters: the parser returns
  \<open>None\<close> where the platform throws a TypeError. \<open>searchParams.append\<close> adds a pair at
  the end of the parameter list and rewrites the query from the list, in the
  application/x-www-form-urlencoded serialisation; \<open>toString\<close> is the URL serialiser.
\<close>

record URL =
  origin :: string
  pathname :: string
  query :: "string option"
  searchParams :: "(string \<times> string) list"
  fragment :: "string option"

record platform =
  URL_new :: "string \<Rightarrow> URL option"
  URL_set_pathname :: "URL \<Rightarrow> string \<Rightarrow> URL"

definition hex_digit :: "nat \<Rightarrow> char" where
  "hex_digit n = (if n < 10 then char_of (48 + n) else char_of (55 + n))"

definition urlencode_byte :: "char \<Rightarrow> string" where
  "urlencode_byte c =
     (let n = (of_char c :: nat) in
      if n = 32 then ''+''
      else if n \<in> {42, 45, 46, 95} \<or> (48 \<le> n \<and> n \<le> 57) \<or> (65 \<le> n \<and> n \<le> 90)
              \<or> (97 \<le> n \<and> n \<le> 122)
      then [c]
      else [CHR ''%'', hex_digit (n div 16), hex_digit (n mod 16)])"

definition urlencode :: "string \<Rightarrow> string" where
  "urlencode s = concat (map urlencode_byte s)"

fun serialize_params :: "(string \<times> string) list \<Rightarrow> string" where
  "serialize_params [] = []"
| "serialize_params [p] = urlencode (fst p) @ ''='' @ urlencode (snd p)"
| "serialize_params (p # q # ps) =
     urlencode (fst p) @ ''='' @ urlencode (snd p) @ ''&'' @ serialize_params (q # ps)"

definition URLSearchParams_append :: "URL \<Rightarrow> string \<Rightarrow> string \<Rightarrow> URL" where
  "URLSearchParams_append u k v =
     (let ps = searchParams u @ [(k, v)]; s = serialize_params ps in
      u\<lparr>searchParams := ps, query := (if s = [] then None else Some s)\<rparr>)"

definition URL_toString :: "URL \<Rightarrow> string" where
  "URL_toString u =
     origin u @ pathname u
     @ (case query u of None \<Rightarrow> [] | Some q \<Rightarrow> ''?'' @ q)
     @ (case fragment u of None \<Rightarrow> [] | Some f \<Rightarrow> ''#'' @ f)"

subsection \<open>JavaScript values of the options\<close>

text \<open>
  request.ts is compiled without strict null checks, so an option typed \<open>T\<close> can hold
  \<open>undefined\<close> (also when the property is missing), \<open>null\<close> or a value of \<open>T\<close>, and
  the code tells them apart: \<open>x !== undefined\<close> is true of \<open>null\<close>, and \<open>null >= 0\<close> is
  true because \<open>null\<close> converts to 0, while \<open>undefined\<close> converts to NaN and every
  comparison with NaN is false. A number is NaN, an infinity or a finite value; a finite
  value is given by its floor, which decides \<open>x >= 0\<close> as the value itself does.
\<close>

datatype 'a optional = Undefined | Null | Defined 'a

datatype number = NaN | Num int | PosInfinity | NegInfinity

fun ge_zero :: "number optional \<Rightarrow> bool" where
  "ge_zero Undefined = False"
| "ge_zero Null = True"
| "ge_zero (Defined NaN) = False"
| "ge_zero (Defined (Num n)) = (0 \<le> n)"
| "ge_zero (Defined PosInfinity) = True"
| "ge_zero (Defined NegInfinity) = False"

subsection \<open>The platform's AbortController, AbortSignal and timers\<close>

text \<open>
  Signals are objects with identity: the world holds them in a list and a signal is
  referred to by its index. The only callbacks request.ts registers are closures
  \<open>() => controller.abort()\<close>. Aborting a signal that is not yet aborted sets its flag
  and runs its listeners in order; aborting an aborted signal does nothing. Adding a
  listener never runs it. \<open>setTimeout\<close> records the callback with the delay argument as
  it was passed.
\<close>

datatype callback = ControllerAbort nat

record AbortSignal =
  aborted :: bool
  listeners :: "callback list"

record world =
  signals :: "AbortSignal list"
  timers :: "(number optional \<times> callback) list"

definition new_AbortController :: "world \<Rightarrow> nat \<times> world" where
  "new_AbortController w =
     (length (signals w), w\<lparr>signals := signals w @ [\<lparr>aborted = False, listeners = []\<rparr>]\<rparr>)"

definition addEventListener :: "world \<Rightarrow> nat \<Rightarrow> callback \<Rightarrow> world" where
  "addEventListener w s cb =
     (if s < length (signals w)
      then w\<lparr>signals := (signals w)[s := (signals w ! s)\<lparr>listeners := listeners (signals w ! s) @ [cb]\<rparr>]\<rparr>
      else w)"

definition setTimeout :: "world \<Rightarrow> callback \<Rightarrow> number optional \<Rightarrow> world" where
  "setTimeout w cb delay = w\<lparr>timers := timers w @ [(delay, cb)]\<rparr>"

definition pending :: "AbortSignal list \<Rightarrow> nat" where
  "pending ss = length (filter (\<lambda>s. \<not> aborted s) ss)"

fun callback_target :: "callback \<Rightarrow> nat" where
  "callback_target (ControllerAbort c) = c"

text \<open>
  \<open>signal_abort\<close> runs a list of pending \<open>abort()\<close> calls: the listeners of a signal
  that fires are run before the calls that were already waiting, as nested calls are.
\<close>

function signal_abort :: "nat list \<Rightarrow> world \<Rightarrow> world" where
  "signal_abort [] w = w"
| "signal_abort (i # js) w =
     (if i < length (signals w) \<and> \<not> aborted (signals w ! i)
      then signal_abort (map callback_target (listeners (signals w ! i)) @ js)
             (w\<lparr>signals := (signals w)[i := (signals w ! i)\<lparr>aborted := True\<rparr>]\<rparr>)
      else signal_abort js w)"
  by pat_completeness auto
termination
proof (relation "measures [\<lambda>(js, w). pending (signals w), \<lambda>(js, w). length js]")
  have mark: "i < length ss \<Longrightarrow> \<not> aborted (ss ! i) \<Longrightarrow>
      pending (ss[i := (ss ! i)\<lparr>aborted := True\<rparr>]) < pending ss" for i ss
  proof (induction ss arbitrary: i)
    case Nil
    then show ?case by simp
  next
    case (Cons s ss)
    show ?case
    proof (cases i)
      case 0
      with Cons.prems show ?thesis by (simp add: pending_def)
    next
      case (Suc j)
      with Cons.prems have "pending (ss[j := (ss ! j)\<lparr>aborted := True\<rparr>]) < pending ss"
        using Cons.IH [of j] by simp
      with Suc show ?thesis by (simp add: pending_def)
    qed
  qed
  show "wf (measures [\<lambda>(js, w). pending (signals w), \<lambda>(js, w). length js])"
    by simp
  show "((map callback_target (listeners (signals w ! i)) @ js,
          w\<lparr>signals := (signals w)[i := (signals w ! i)\<lparr>aborted := True\<rparr>]\<rparr>), i # js, w)
        \<in> measures [\<lambda>(js, w). pending (signals w), \<lambda>(js, w). length js]"
    if "i < length (signals w) \<and> \<not> aborted (signals w ! i)" for i js w
    using that by (simp add: mark)
  show "((js, w), i # js, w) \<in> measures [\<lambda>(js, w). pending (signals w), \<lambda>(js, w). length js]"
    for i js w
    by simp
qed

subsection \<open>Request options, collaborators and request descriptors\<close>

text \<open>
  \<open>customHeaders\<close> is either a \<open>Headers\<close> object or a plain object with string values
  (its own enumerable properties, in order). \<open>timeout\<close> is a number of milliseconds and
  \<open>signal\<close> a reference to an \<open>AbortSignal\<close> of the world; getSignal tells \<open>undefined\<close>
  from \<open>null\<close> in both, so both are kept. For the other options, and for requestOptions
  itself, the code treats \<open>undefined\<close> and \<open>null\<close> alike (\<open>?.\<close>, \<open>||\<close>, a truthiness
  test): \<open>None\<close> stands for either.
\<close>

datatype CustomHeaders =
    HeadersObject Headers
  | PlainObject "(string \<times> string) list"

datatype Body = Blob string | Text string

record RequestInit =
  request_method :: string
  headers :: Headers
  body :: "Body option"
  init_signal :: "nat option"

record RequestOptions =
  apiVersion :: "string option"
  baseUrl :: "string option"
  customHeaders :: "CustomHeaders option"
  timeout :: "number optional"
  signal :: "nat optional"

text \<open>
  What request.ts imports from \<open>../requests/request\<close>: the two default constants and
  \<open>getClientHeaders\<close> are taken as parameters.
\<close>

record collaborators =
  DEFAULT_API_VERSION :: string
  DEFAULT_BASE_URL :: string
  getClientHeaders :: "RequestOptions option \<Rightarrow> string"

text \<open>
  Modelled from the spec: \<open>makeRequest\<close> of \<open>../requests/request\<close> is not part of
  request.ts. The spec describes it as a generic request-dispatch function accepting
  (url string, request descriptor, transport function) and returning a pending response,
  and the dispatcher as invoking the transport function with the stringified URL and
  the descriptor, returning its result unchanged.
\<close>

definition makeRequest :: "string \<Rightarrow> RequestInit \<Rightarrow> (string \<Rightarrow> RequestInit \<Rightarrow> 'r) \<Rightarrow> 'r" where
  "makeRequest url_string requestInit fetchFn = fetchFn url_string requestInit"

subsection \<open>ServerRequestUrl and its subclasses\<close>

text \<open>
  The field \<open>_url\<close> is declared by the base class and assigned only by the constructors
  of the subclasses: \<open>None\<close> is the unassigned field (\<open>undefined\<close>), and a member
  access on it throws a TypeError.
\<close>

record ServerRequestUrl =
  task :: RpcTask
  apiKey :: string
  requestOptions :: "RequestOptions option"
  url :: "URL option"

definition ServerRequestUrl_new ::
  "RpcTask \<Rightarrow> string \<Rightarrow> RequestOptions option \<Rightarrow> ServerRequestUrl" where
  "ServerRequestUrl_new t k ro = \<lparr>task = t, apiKey = k, requestOptions = ro, url = None\<rparr>"

definition appendPath ::
  "platform \<Rightarrow> ServerRequestUrl \<Rightarrow> string \<Rightarrow> error + ServerRequestUrl" where
  "appendPath plat this path =
     (case url this of
        None \<Rightarrow> Inl TypeError
      | Some u \<Rightarrow> Inr (this\<lparr>url := Some (URL_set_pathname plat u (pathname u @ ''/'' @ path))\<rparr>))"

definition appendParam ::
  "ServerRequestUrl \<Rightarrow> string \<Rightarrow> string \<Rightarrow> error + ServerRequestUrl" where
  "appendParam this k v =
     (case url this of
        None \<Rightarrow> Inl TypeError
      | Some u \<Rightarrow> Inr (this\<lparr>url := Some (URLSearchParams_append u k v)\<rparr>))"

definition toString :: "ServerRequestUrl \<Rightarrow> error + string" where
  "toString this =
     (case url this of
        None \<Rightarrow> Inl TypeError
      | Some u \<Rightarrow> Inr (URL_toString u))"

text \<open>\<open>a || b\<close> on an optional string: \<open>undefined\<close> and the empty string are falsy.\<close>

definition or_default :: "string option \<Rightarrow> string \<Rightarrow> string" where
  "or_default a b = (case a of None \<Rightarrow> b | Some s \<Rightarrow> if s = [] then b else s)"

definition CachedContentUrl_initialUrl ::
  "collaborators \<Rightarrow> RequestOptions option \<Rightarrow> string" where
  "CachedContentUrl_initialUrl col ro =
     (let version = or_default (Option.bind ro apiVersion) (DEFAULT_API_VERSION col);
          base = or_default (Option.bind ro baseUrl) (DEFAULT_BASE_URL col)
      in base @ ''/'' @ version @ ''/cachedContents'')"

definition CachedContentUrl ::
  "platform \<Rightarrow> collaborators \<Rightarrow> RpcTask \<Rightarrow> string \<Rightarrow> RequestOptions option
   \<Rightarrow> error + ServerRequestUrl" where
  "CachedContentUrl plat col t k ro =
     (let this = ServerRequestUrl_new t k ro in
      case URL_new plat (CachedContentUrl_initialUrl col (requestOptions this)) of
        None \<Rightarrow> Inl TypeError
      | Some u \<Rightarrow> Inr (this\<lparr>url := Some u\<rparr>))"

definition FilesRequestUrl_initialUrl ::
  "collaborators \<Rightarrow> RpcTask \<Rightarrow> RequestOptions option \<Rightarrow> string" where
  "FilesRequestUrl_initialUrl col t ro =
     (let version = or_default (Option.bind ro apiVersion) (DEFAULT_API_VERSION col);
          base = or_default (Option.bind ro baseUrl) (DEFAULT_BASE_URL col)
      in (if t = UPLOAD then base @ ''/upload'' else base) @ ''/'' @ version @ ''/files'')"

definition FilesRequestUrl ::
  "platform \<Rightarrow> collaborators \<Rightarrow> RpcTask \<Rightarrow> string \<Rightarrow> RequestOptions option
   \<Rightarrow> error + ServerRequestUrl" where
  "FilesRequestUrl plat col t k ro =
     (let this = ServerRequestUrl_new t k ro in
      case URL_new plat (FilesRequestUrl_initialUrl col (task this) (requestOptions this)) of
        None \<Rightarrow> Inl TypeError
      | Some u \<Rightarrow> Inr (this\<lparr>url := Some u\<rparr>))"

subsection \<open>getHeaders\<close>

text \<open>
  The loop over \<open>customHeaders.entries()\<close>: a reserved name throws, any other entry is
  appended to the headers built so far.
\<close>

fun getHeaders_loop :: "Headers \<Rightarrow> (string \<times> string) list \<Rightarrow> error + Headers" where
  "getHeaders_loop hs [] = Inr hs"
| "getHeaders_loop hs (e # es) =
     (if fst e = ''x-goog-api-key''
      then Inl (GoogleGenerativeAIRequestInputError (CannotSetReserved (fst e)))
      else if fst e = ''x-goog-api-client''
      then Inl (GoogleGenerativeAIRequestInputError (OnlyViaApiClient (fst e)))
      else (case Headers_append hs (fst e) (snd e) of
              Inl err \<Rightarrow> Inl err
            | Inr hs' \<Rightarrow> getHeaders_loop hs' es))"

text \<open>The conversion of \<open>customHeaders\<close> to a \<open>Headers\<close> object, with its try/catch.\<close>

definition convert_customHeaders :: "CustomHeaders \<Rightarrow> error + Headers" where
  "convert_customHeaders ch =
     (case ch of
        HeadersObject h \<Rightarrow> Inr h
      | PlainObject init \<Rightarrow>
          (case Headers_new init of
             Inl err \<Rightarrow> Inl (GoogleGenerativeAIRequestInputError UnableToConvert)
           | Inr h \<Rightarrow> Inr h))"

definition getHeaders :: "collaborators \<Rightarrow> ServerRequestUrl \<Rightarrow> error + Headers" where
  "getHeaders col u =
     (case Headers_append [] ''x-goog-api-client'' (getClientHeaders col (requestOptions u)) of
        Inl err \<Rightarrow> Inl err
      | Inr h1 \<Rightarrow>
     (case Headers_append h1 ''x-goog-api-key'' (apiKey u) of
        Inl err \<Rightarrow> Inl err
      | Inr h2 \<Rightarrow>
     (case Option.bind (requestOptions u) customHeaders of
        None \<Rightarrow> Inr h2
      | Some ch \<Rightarrow>
     (case convert_customHeaders ch of
        Inl err \<Rightarrow> Inl err
      | Inr c \<Rightarrow> getHeaders_loop h2 (Headers_entries c)))))"

subsection \<open>getSignal and makeServerRequest\<close>

text \<open>
  \<open>requestOptions?.signal\<close> and \<open>requestOptions?.timeout\<close>: \<open>undefined\<close> when
  requestOptions is missing.
\<close>

definition optional_signal :: "RequestOptions option \<Rightarrow> nat optional" where
  "optional_signal ro = (case ro of None \<Rightarrow> Undefined | Some r \<Rightarrow> signal r)"

definition optional_timeout :: "RequestOptions option \<Rightarrow> number optional" where
  "optional_timeout ro = (case ro of None \<Rightarrow> Undefined | Some r \<Rightarrow> timeout r)"

text \<open>
  \<open>getSignal\<close> returns the new controller's signal, or nothing (the function ends
  without a \<open>return\<close>) when its guard is false. The guard tests
  \<open>signal !== undefined\<close> and \<open>timeout >= 0\<close>; the listener is added under the
  truthiness test \<open>if (requestOptions.signal)\<close>, which \<open>null\<close> fails.
\<close>

definition getSignal :: "world \<Rightarrow> RequestOptions option \<Rightarrow> nat option \<times> world" where
  "getSignal w ro =
     (if optional_signal ro \<noteq> Undefined \<or> ge_zero (optional_timeout ro) then
        (let (controller, w1) = new_AbortController w;
             w2 = (if ge_zero (optional_timeout ro)
                   then setTimeout w1 (ControllerAbort controller) (optional_timeout ro)
                   else w1);
             w3 = (case optional_signal ro of
                     Defined s \<Rightarrow> addEventListener w2 s (ControllerAbort controller)
                   | _ \<Rightarrow> w2)
         in (Some controller, w3))
      else (None, w))"

text \<open>\<open>if (body)\<close>: a Blob is an object and truthy, a string is truthy unless empty.\<close>

fun truthy_body :: "Body option \<Rightarrow> bool" where
  "truthy_body None = False"
| "truthy_body (Some (Blob b)) = True"
| "truthy_body (Some (Text t)) = (t \<noteq> [])"

definition makeServerRequest_init ::
  "ServerRequestUrl \<Rightarrow> Headers \<Rightarrow> Body option \<Rightarrow> nat option \<Rightarrow> RequestInit" where
  "makeServerRequest_init u hs b sg =
     (let requestInit = \<lparr>request_method = taskToMethod (task u), headers = hs, body = None,
                         init_signal = None\<rparr>;
          requestInit = (if truthy_body b then requestInit\<lparr>body := b\<rparr> else requestInit);
          requestInit = (case sg of None \<Rightarrow> requestInit
                         | Some s \<Rightarrow> requestInit\<lparr>init_signal := Some s\<rparr>)
      in requestInit)"

text \<open>
  \<open>fetch\<close> is the platform's transport, the default of the parameter \<open>fetchFn\<close>. The
  result is what the returned promise settles to, with the world after the call.
\<close>

definition makeServerRequest ::
  "(string \<Rightarrow> RequestInit \<Rightarrow> 'r) \<Rightarrow> world \<Rightarrow> ServerRequestUrl \<Rightarrow> Headers \<Rightarrow> Body option
   \<Rightarrow> (string \<Rightarrow> RequestInit \<Rightarrow> 'r) option \<Rightarrow> (error + 'r) \<times> world" where
  "makeServerRequest fetch w u hs b fetchFn =
     (let f = (case fetchFn of None \<Rightarrow> fetch | Some g \<Rightarrow> g);
          (sg, w') = getSignal w (requestOptions u);
          requestInit = makeServerRequest_init u hs b sg
      in (case toString u of
            Inl err \<Rightarrow> (Inl err, w')
          | Inr s \<Rightarrow> (Inr (makeRequest s requestInit f), w')))"

subsection \<open>The URL contract in the words of the specification\<close>

text \<open>
  The specification's URL: \<open>{baseUrl}/{apiVersion}/{resourcePath}\<close>, each of the first
  two being the option when requestOptions gives it and the default otherwise, with
  \<open>/upload\<close> before the version segment for a file upload.
\<close>

definition spec_option :: "string option \<Rightarrow> string \<Rightarrow> string" where
  "spec_option a d = (case a of None \<Rightarrow> d | Some s \<Rightarrow> s)"

definition spec_url :: "collaborators \<Rightarrow> bool \<Rightarrow> string \<Rightarrow> RequestOptions option \<Rightarrow> string" where
  "spec_url col upload resourcePath ro =
     spec_option (Option.bind ro baseUrl) (DEFAULT_BASE_URL col)
     @ (if upload then ''/upload'' else [])
     @ ''/'' @ spec_option (Option.bind ro apiVersion) (DEFAULT_API_VERSION col)
     @ ''/'' @ resourcePath"

subsection \<open>A concrete platform and collaborators for the examples\<close>

text \<open>
  The closed examples below need a parser to run. \<open>example_URL_new\<close> accepts the plain
  URLs \<open>https://host/path\<close> (no query, no fragment, no space), splitting them at the
  first slash after the host as the platform does for such a URL already in normal form,
  and rejects every other string; the example collaborators give sample values to the two constants
  and a fixed client header.
\<close>

definition example_URL_new :: "string \<Rightarrow> URL option" where
  "example_URL_new s =
     (if take 8 s = ''https://'' \<and> drop 8 s \<noteq> [] \<and> hd (drop 8 s) \<noteq> CHR ''/''
         \<and> CHR ''?'' \<notin> set s \<and> CHR ''#'' \<notin> set s \<and> CHR '' '' \<notin> set s
      then Some \<lparr>origin = take 8 s @ takeWhile (\<lambda>c. c \<noteq> CHR ''/'') (drop 8 s),
                 pathname = (let p = dropWhile (\<lambda>c. c \<noteq> CHR ''/'') (drop 8 s)
                             in if p = [] then ''/'' else p),
                 query = None, searchParams = [], fragment = None\<rparr>
      else None)"

definition example_platform :: platform where
  "example_platform =
     \<lparr>URL_new = example_URL_new, URL_set_pathname = (\<lambda>u p. u\<lparr>pathname := p\<rparr>)\<rparr>"

definition example_collaborators :: collaborators where
  "example_collaborators =
     \<lparr>DEFAULT_API_VERSION = ''v1beta'',
      DEFAULT_BASE_URL = ''https://generativelanguage.googleapis.com'',
      getClientHeaders = (\<lambda>ro. ''genai-js/0.21.0'')\<rparr>"

definition no_options :: RequestOptions where
  "no_options =
     \<lparr>apiVersion = None, baseUrl = None, customHeaders = None, timeout = Undefined,
      signal = Undefined\<rparr>"

definition empty_world :: world where
  "empty_world = \<lparr>signals = [], timers = []\<rparr>"

text \<open>
  The JavaScript reading of "overridden": an option that is the empty string is falsy
  and counts as absent.
\<close>

definition empty_as_absent :: "RequestOptions option \<Rightarrow> RequestOptions option" where
  "empty_as_absent ro =
     map_option (\<lambda>r. r\<lparr>apiVersion := (if apiVersion r = Some [] then None else apiVersion r),
                        baseUrl := (if baseUrl r = Some [] then None else baseUrl r)\<rparr>) ro"

text \<open>
  The entries a caller supplied as \<open>customHeaders\<close>, before any conversion, and the
  two header names that getHeaders sets itself.
\<close>

fun supplied_headers :: "CustomHeaders \<Rightarrow> (string \<times> string) list" where
  "supplied_headers (HeadersObject h) = h"
| "supplied_headers (PlainObject init) = init"

definition reserved_names :: "string set" where
  "reserved_names = {''x-goog-api-key'', ''x-goog-api-client''}"

text \<open>
  A \<open>Headers\<close> object handed in by the caller was built by the class itself, so its
  list is well-formed; a plain object can hold any strings.
\<close>

fun CustomHeaders_wf :: "CustomHeaders \<Rightarrow> bool" where
  "CustomHeaders_wf (HeadersObject h) = Headers_wf h"
| "CustomHeaders_wf (PlainObject init) = True"

definition example_url :: "CustomHeaders \<Rightarrow> ServerRequestUrl" where
  "example_url ch =
     \<lparr>task = GET, apiKey = ''k'',
      requestOptions = Some (no_options\<lparr>customHeaders := Some ch\<rparr>),
      url = Some \<lparr>origin = ''https://generativelanguage.googleapis.com'',
                  pathname = ''/v1beta/files'', query = None, searchParams = [],
                  fragment = None\<rparr>\<rparr>"

section \<open>Properties\<close>

subsection \<open>Query parameters\<close>

lemma serialize_params_Cons:
  "qs \<noteq> [] \<Longrightarrow>
   serialize_params (p # qs) =
     urlencode (fst p) @ ''='' @ urlencode (snd p) @ ''&'' @ serialize_params qs"
  by (cases qs) simp_all

lemma serialize_params_append:
  "serialize_params (ps @ qs) =
     (if ps = [] then serialize_params qs
      else if qs = [] then serialize_params ps
      else serialize_params ps @ ''&'' @ serialize_params qs)"
proof (induction ps)
  case Nil
  show ?case by simp
next
  case (Cons p ps)
  show ?case
  proof (cases "ps = []")
    case True
    then show ?thesis by (simp add: serialize_params_Cons)
  next
    case False
    with Cons show ?thesis by (simp add: serialize_params_Cons)
  qed
qed

lemma appendParam_initialized:
  "url this = Some u \<Longrightarrow>
   appendParam this k v = Inr (this\<lparr>url := Some (URLSearchParams_append u k v)\<rparr>)"
  by (simp add: appendParam_def)

lemma searchParams_append:
  "searchParams (URLSearchParams_append u k v) = searchParams u @ [(k, v)]"
  by (simp add: URLSearchParams_append_def Let_def)

lemma query_append:
  "query (URLSearchParams_append u k v) = Some (serialize_params (searchParams u @ [(k, v)]))"
proof -
  have "serialize_params (searchParams u @ [(k, v)]) \<noteq> []"
    by (simp add: serialize_params_append)
  then show ?thesis by (simp add: URLSearchParams_append_def Let_def)
qed

text \<open>
  C8 (as amended): on every ServerRequestUrl whose URL state is initialised (every
  CachedContentUrl and FilesRequestUrl), calling appendParam(k, v) twice with the same
  key returns both times and appends two entries: the parameter list is the old list
  followed by (k, v) twice, so no earlier entry is overwritten, and the query string of
  the result is the serialisation of the old parameters followed by the two k=v pairs,
  which toString renders after the question mark. On an object of the base class, whose
  URL state is never assigned, appendParam throws instead.
\<close>

theorem appendParam_twice_keeps_both:
  assumes "url this = Some u"
  shows "\<exists>this1 this2 u2.
           appendParam this k v = Inr this1 \<and> appendParam this1 k v = Inr this2
           \<and> url this2 = Some u2
           \<and> searchParams u2 = searchParams u @ [(k, v), (k, v)]
           \<and> query u2 = Some ((if searchParams u = [] then []
                                else serialize_params (searchParams u) @ ''&'')
                               @ urlencode k @ ''='' @ urlencode v
                               @ ''&'' @ urlencode k @ ''='' @ urlencode v)
           \<and> toString this2 = Inr (origin u2 @ pathname u2 @ ''?'' @ the (query u2)
                 @ (case fragment u2 of None \<Rightarrow> [] | Some f \<Rightarrow> ''#'' @ f))"
proof -
  define u1 where "u1 = URLSearchParams_append u k v"
  define u2 where "u2 = URLSearchParams_append u1 k v"
  define this1 where "this1 = this\<lparr>url := Some u1\<rparr>"
  define this2 where "this2 = this1\<lparr>url := Some u2\<rparr>"
  have s1: "appendParam this k v = Inr this1"
    using assms by (simp add: appendParam_initialized this1_def u1_def)
  have "url this1 = Some u1" by (simp add: this1_def)
  then have s2: "appendParam this1 k v = Inr this2"
    by (simp add: appendParam_initialized this2_def u2_def)
  have ps: "searchParams u2 = searchParams u @ [(k, v), (k, v)]"
    by (simp add: u2_def u1_def searchParams_append)
  have "query u2 = Some (serialize_params (searchParams u @ [(k, v), (k, v)]))"
    by (simp add: u2_def query_append u1_def searchParams_append)
  then have q: "query u2 = Some ((if searchParams u = [] then []
                                else serialize_params (searchParams u) @ ''&'')
                               @ urlencode k @ ''='' @ urlencode v
                               @ ''&'' @ urlencode k @ ''='' @ urlencode v)"
    by (simp add: serialize_params_append)
  have t: "toString this2 = Inr (origin u2 @ pathname u2 @ ''?'' @ the (query u2)
                 @ (case fragment u2 of None \<Rightarrow> [] | Some f \<Rightarrow> ''#'' @ f))"
    unfolding toString_def URL_toString_def using q by (simp add: this2_def)
  have "url this2 = Some u2" by (simp add: this2_def)
  with s1 s2 ps q t show ?thesis by blast
qed

theorem appendParam_twice_keeps_both_witness:
  "\<exists>this0 this1 this2.
     FilesRequestUrl example_platform example_collaborators LIST ''key'' None = Inr this0
     \<and> appendParam this0 ''k'' ''v'' = Inr this1 \<and> appendParam this1 ''k'' ''v'' = Inr this2
     \<and> toString this2
         = Inr ''https://generativelanguage.googleapis.com/v1beta/files?k=v&k=v''"
proof -
  define u where "u = \<lparr>origin = ''https://generativelanguage.googleapis.com'',
      pathname = ''/v1beta/files'', query = None, searchParams = [], fragment = None\<rparr>"
  define this0 where "this0 = \<lparr>task = LIST, apiKey = ''key'', requestOptions = None,
      url = Some u\<rparr>"
  have c: "FilesRequestUrl example_platform example_collaborators LIST ''key'' None = Inr this0"
    unfolding this0_def u_def by code_simp
  have h: "url this0 = Some u" by (simp add: this0_def)
  have enc: "urlencode ''k'' = ''k''" "urlencode ''v'' = ''v''" by code_simp+
  from appendParam_twice_keeps_both [OF h, of "''k''" "''v''"]
  obtain this1 this2 u2 where
    a: "appendParam this0 ''k'' ''v'' = Inr this1" "appendParam this1 ''k'' ''v'' = Inr this2"
    and q: "query u2 = Some ((if searchParams u = [] then []
                                else serialize_params (searchParams u) @ ''&'')
              @ urlencode ''k'' @ ''='' @ urlencode ''v''
              @ ''&'' @ urlencode ''k'' @ ''='' @ urlencode ''v'')"
    and u2: "url this2 = Some u2"
    and t: "toString this2 = Inr (origin u2 @ pathname u2 @ ''?'' @ the (query u2)
                 @ (case fragment u2 of None \<Rightarrow> [] | Some f \<Rightarrow> ''#'' @ f))"
    by blast
  have u2_eq: "u2 = URLSearchParams_append (URLSearchParams_append u ''k'' ''v'') ''k'' ''v''"
    using a u2 h by (auto simp: appendParam_def)
  have "origin u2 = ''https://generativelanguage.googleapis.com''"
       "pathname u2 = ''/v1beta/files''" "fragment u2 = None"
    by (simp_all add: u2_eq URLSearchParams_append_def Let_def u_def)
  moreover have "the (query u2) = ''k=v&k=v''"
    using q by (simp add: enc u_def)
  ultimately have "toString this2
      = Inr ''https://generativelanguage.googleapis.com/v1beta/files?k=v&k=v''"
    using t by simp
  with c a show ?thesis by blast
qed

theorem appendParam_on_base_class_throws:
  "appendParam (ServerRequestUrl_new LIST ''key'' None) ''k'' ''v'' = Inl TypeError"
  by (simp add: appendParam_def ServerRequestUrl_new_def)

subsection \<open>Initialisation of the URL state\<close>

text \<open>
  C9 (as amended): every object that the constructors of CachedContentUrl and
  FilesRequestUrl return has its URL state initialised, appendPath and appendParam keep
  it initialised, and so appendPath, appendParam and toString return on such an object.
  On an object of the base class ServerRequestUrl itself the URL state is never assigned
  and the three operations throw.
\<close>

theorem subclass_url_initialized:
  assumes "CachedContentUrl plat col t k ro = Inr this
           \<or> FilesRequestUrl plat col t k ro = Inr this"
  shows "url this \<noteq> None
         \<and> (\<exists>s. toString this = Inr s)
         \<and> (\<exists>this'. appendParam this a b = Inr this' \<and> url this' \<noteq> None)
         \<and> (\<exists>this'. appendPath plat this p = Inr this' \<and> url this' \<noteq> None)"
proof -
  from assms obtain u where u: "url this = Some u"
    by (auto simp: CachedContentUrl_def FilesRequestUrl_def Let_def split: option.splits)
  then show ?thesis
    by (simp add: toString_def appendParam_def appendPath_def)
qed

theorem subclass_url_initialized_witness:
  "\<exists>this. CachedContentUrl example_platform example_collaborators GET ''k'' None = Inr this
     \<and> url this \<noteq> None
     \<and> (\<exists>s. toString this = Inr s)
     \<and> (\<exists>this'. appendParam this ''pageSize'' ''10'' = Inr this' \<and> url this' \<noteq> None)
     \<and> (\<exists>this'. appendPath example_platform this ''abc'' = Inr this' \<and> url this' \<noteq> None)"
proof -
  define this where "this = \<lparr>task = GET, apiKey = ''k'', requestOptions = None,
      url = Some \<lparr>origin = ''https://generativelanguage.googleapis.com'',
        pathname = ''/v1beta/cachedContents'', query = None, searchParams = [],
        fragment = None\<rparr>\<rparr>"
  have c: "CachedContentUrl example_platform example_collaborators GET ''k'' None = Inr this"
    unfolding this_def by code_simp
  then have "CachedContentUrl example_platform example_collaborators GET ''k'' None = Inr this
      \<or> FilesRequestUrl example_platform example_collaborators GET ''k'' None = Inr this"
    by simp
  from subclass_url_initialized [OF this, of "''pageSize''" "''10''" "''abc''"] c
  show ?thesis by blast
qed

theorem base_class_url_uninitialized:
  "url (ServerRequestUrl_new GET ''k'' None) = None
   \<and> toString (ServerRequestUrl_new GET ''k'' None) = Inl TypeError
   \<and> appendParam (ServerRequestUrl_new GET ''k'' None) ''k'' ''v'' = Inl TypeError
   \<and> appendPath example_platform (ServerRequestUrl_new GET ''k'' None) ''abc'' = Inl TypeError"
  by (simp add: ServerRequestUrl_new_def toString_def appendParam_def appendPath_def)

subsection \<open>getSignal\<close>

lemma getSignal_none:
  "optional_signal ro = Undefined \<Longrightarrow> \<not> ge_zero (optional_timeout ro) \<Longrightarrow>
   getSignal w ro = (None, w)"
  by (simp add: getSignal_def)

lemma getSignal_some:
  "optional_signal ro \<noteq> Undefined \<or> ge_zero (optional_timeout ro) \<Longrightarrow>
   fst (getSignal w ro) = Some (length (signals w))
   \<and> length (signals (snd (getSignal w ro))) = Suc (length (signals w))
   \<and> \<not> aborted (signals (snd (getSignal w ro)) ! length (signals w))"
  by (auto simp: getSignal_def new_AbortController_def setTimeout_def addEventListener_def
      Let_def nth_append nth_list_update split: optional.splits)

lemma ge_zero_iff:
  "ge_zero t = (t = Null \<or> t = Defined PosInfinity \<or> (\<exists>n. t = Defined (Num n) \<and> 0 \<le> n))"
  by (cases t rule: ge_zero.cases) simp_all

text \<open>
  C5 (as amended): getSignal returns no signal exactly when the signal option is
  undefined and \<open>timeout >= 0\<close> is false, that is, when the timeout is undefined, NaN,
  negative or minus infinity; in every other case, so whenever the signal option is
  anything but undefined (an AbortSignal, or null) or the timeout is zero or more
  (null counts as zero), it creates a new controller, whose signal is a new signal of
  the world, and returns that signal.
\<close>

theorem getSignal_none_iff:
  "(fst (getSignal w ro) = None)
     = (optional_signal ro = Undefined
        \<and> optional_timeout ro \<noteq> Null \<and> optional_timeout ro \<noteq> Defined PosInfinity
        \<and> (\<forall>n. optional_timeout ro = Defined (Num n) \<longrightarrow> n < 0))
   \<and> (fst (getSignal w ro) \<noteq> None \<longrightarrow>
        fst (getSignal w ro) = Some (length (signals w))
        \<and> length (signals (snd (getSignal w ro))) = Suc (length (signals w)))"
proof -
  have g: "ge_zero (optional_timeout ro)
      = (\<not> (optional_timeout ro \<noteq> Null \<and> optional_timeout ro \<noteq> Defined PosInfinity
            \<and> (\<forall>n. optional_timeout ro = Defined (Num n) \<longrightarrow> n < 0)))"
    unfolding ge_zero_iff by auto
  show ?thesis
  proof (cases "optional_signal ro \<noteq> Undefined \<or> ge_zero (optional_timeout ro)")
    case True
    from getSignal_some [OF this, of w] True g show ?thesis by auto
  next
    case False
    then have "getSignal w ro = (None, w)" by (simp add: getSignal_none)
    with False g show ?thesis by auto
  qed
qed

theorem getSignal_none_iff_witness:
  "fst (getSignal empty_world (Some (no_options\<lparr>timeout := Defined (Num 0)\<rparr>))) = Some 0
   \<and> length (signals (snd (getSignal empty_world
                              (Some (no_options\<lparr>timeout := Defined (Num 0)\<rparr>))))) = 1
   \<and> fst (getSignal empty_world (Some (no_options\<lparr>signal := Null\<rparr>))) = Some 0
   \<and> fst (getSignal empty_world (Some (no_options\<lparr>timeout := Null\<rparr>))) = Some 0
   \<and> fst (getSignal empty_world (Some (no_options\<lparr>timeout := Defined NaN\<rparr>))) = None
   \<and> fst (getSignal empty_world (Some no_options)) = None
   \<and> fst (getSignal empty_world None) = None"
proof -
  have e: "length (signals empty_world) = 0" by (simp add: empty_world_def)
  note T = getSignal_none_iff [of empty_world]
  have 1: "fst (getSignal empty_world (Some (no_options\<lparr>timeout := Defined (Num 0)\<rparr>))) = Some 0
     \<and> length (signals (snd (getSignal empty_world
                              (Some (no_options\<lparr>timeout := Defined (Num 0)\<rparr>))))) = 1"
    using T [of "Some (no_options\<lparr>timeout := Defined (Num 0)\<rparr>)"] e
    by (simp add: optional_timeout_def optional_signal_def no_options_def)
  have 2: "fst (getSignal empty_world (Some (no_options\<lparr>signal := Null\<rparr>))) = Some 0"
    using T [of "Some (no_options\<lparr>signal := Null\<rparr>)"] e
    by (simp add: optional_timeout_def optional_signal_def no_options_def)
  have 3: "fst (getSignal empty_world (Some (no_options\<lparr>timeout := Null\<rparr>))) = Some 0"
    using T [of "Some (no_options\<lparr>timeout := Null\<rparr>)"] e
    by (simp add: optional_timeout_def optional_signal_def no_options_def)
  have 4: "fst (getSignal empty_world (Some (no_options\<lparr>timeout := Defined NaN\<rparr>))) = None"
    using T [of "Some (no_options\<lparr>timeout := Defined NaN\<rparr>)"]
    by (simp add: optional_timeout_def optional_signal_def no_options_def)
  have 5: "fst (getSignal empty_world (Some no_options)) = None"
    using T [of "Some no_options"]
    by (simp add: optional_timeout_def optional_signal_def no_options_def)
  have 6: "fst (getSignal empty_world None) = None"
    using T [of None]
    by (simp add: optional_timeout_def optional_signal_def)
  from 1 2 3 4 5 6 show ?thesis by simp
qed

theorem getSignal_negative_timeout:
  "optional_timeout (Some (no_options\<lparr>timeout := Defined (Num (- 1))\<rparr>)) = Defined (Num (- 1))
   \<and> fst (getSignal empty_world (Some (no_options\<lparr>timeout := Defined (Num (- 1))\<rparr>))) = None"
  by (simp add: getSignal_def optional_timeout_def optional_signal_def no_options_def)

text \<open>
  C4: requestOptions holds an external signal that is already aborted when getSignal is
  called. getSignal only registers a listener for a later abort event, which an aborted
  signal never sends again, so the signal it returns is not aborted on return.
\<close>

theorem getSignal_preaborted_not_fired:
  assumes "optional_signal ro = Defined s"
    and "s < length (signals w)"
    and "aborted (signals w ! s)"
  shows "fst (getSignal w ro) = Some (length (signals w))
         \<and> aborted (signals (snd (getSignal w ro)) ! s)
         \<and> \<not> aborted (signals (snd (getSignal w ro)) ! length (signals w))"
proof -
  have "optional_signal ro \<noteq> Undefined \<or> ge_zero (optional_timeout ro)"
    using assms(1) by simp
  from getSignal_some [OF this, of w]
  have "fst (getSignal w ro) = Some (length (signals w))"
    and "\<not> aborted (signals (snd (getSignal w ro)) ! length (signals w))"
    by simp_all
  moreover have "aborted (signals (snd (getSignal w ro)) ! s)"
    using assms
    by (auto simp: getSignal_def new_AbortController_def setTimeout_def addEventListener_def
        Let_def nth_append nth_list_update)
  ultimately show ?thesis by simp
qed

theorem getSignal_preaborted_not_fired_witness:
  "fst (getSignal \<lparr>signals = [\<lparr>aborted = True, listeners = []\<rparr>], timers = []\<rparr>
          (Some (no_options\<lparr>signal := Defined 0\<rparr>))) = Some 1
   \<and> aborted (signals (snd (getSignal \<lparr>signals = [\<lparr>aborted = True, listeners = []\<rparr>],
                                          timers = []\<rparr>
                                (Some (no_options\<lparr>signal := Defined 0\<rparr>)))) ! 0)
   \<and> \<not> aborted (signals (snd (getSignal \<lparr>signals = [\<lparr>aborted = True, listeners = []\<rparr>],
                                            timers = []\<rparr>
                                  (Some (no_options\<lparr>signal := Defined 0\<rparr>)))) ! 1)"
  using getSignal_preaborted_not_fired
    [of "Some (no_options\<lparr>signal := Defined 0\<rparr>)" 0
        "\<lparr>signals = [\<lparr>aborted = True, listeners = []\<rparr>], timers = []\<rparr>"]
  by (simp add: no_options_def optional_signal_def)

subsection \<open>URL construction\<close>

lemma or_default_spec_option:
  "or_default a d = spec_option (if a = Some [] then None else a) d"
  by (simp add: or_default_def spec_option_def split: option.splits)

lemma CachedContentUrl_initialUrl_spec:
  "CachedContentUrl_initialUrl col ro = spec_url col False ''cachedContents'' (empty_as_absent ro)"
  by (cases ro)
     (simp_all add: CachedContentUrl_initialUrl_def spec_url_def empty_as_absent_def
        or_default_spec_option Let_def)

lemma FilesRequestUrl_initialUrl_spec:
  "FilesRequestUrl_initialUrl col t ro = spec_url col (t = UPLOAD) ''files'' (empty_as_absent ro)"
  by (cases ro)
     (simp_all add: FilesRequestUrl_initialUrl_def spec_url_def empty_as_absent_def
        or_default_spec_option Let_def)

text \<open>
  C2 (as amended): for every task, apiKey and requestOptions, the constructors of
  CachedContentUrl and FilesRequestUrl hand to the URL parser the string
  \<open>{baseUrl}/{apiVersion}/{resourcePath}\<close>, where baseUrl and apiVersion are the
  defaults when the option is absent or the empty string, resourcePath is
  cachedContents or files, and /upload comes before the version segment for
  FilesRequestUrl with task UPLOAD and only then. If the parser rejects the string the
  constructor throws; otherwise the object's toString is the serialisation of the parsed
  URL, which is that very string whenever the parser leaves it unchanged.
\<close>

theorem constructed_url_string:
  "(\<forall>u. URL_new plat (spec_url col False ''cachedContents'' (empty_as_absent ro)) = Some u \<longrightarrow>
        (\<exists>this. CachedContentUrl plat col t k ro = Inr this
                \<and> toString this = Inr (URL_toString u)
                \<and> (URL_toString u = spec_url col False ''cachedContents'' (empty_as_absent ro)
                     \<longrightarrow> toString this
                          = Inr (spec_url col False ''cachedContents'' (empty_as_absent ro)))))
   \<and> (\<forall>u. URL_new plat (spec_url col (t = UPLOAD) ''files'' (empty_as_absent ro)) = Some u \<longrightarrow>
        (\<exists>this. FilesRequestUrl plat col t k ro = Inr this
                \<and> toString this = Inr (URL_toString u)
                \<and> (URL_toString u = spec_url col (t = UPLOAD) ''files'' (empty_as_absent ro)
                     \<longrightarrow> toString this
                          = Inr (spec_url col (t = UPLOAD) ''files'' (empty_as_absent ro)))))
   \<and> (URL_new plat (spec_url col False ''cachedContents'' (empty_as_absent ro)) = None \<longrightarrow>
        CachedContentUrl plat col t k ro = Inl TypeError)
   \<and> (URL_new plat (spec_url col (t = UPLOAD) ''files'' (empty_as_absent ro)) = None \<longrightarrow>
        FilesRequestUrl plat col t k ro = Inl TypeError)"
  by (simp add: CachedContentUrl_def FilesRequestUrl_def ServerRequestUrl_new_def Let_def
      CachedContentUrl_initialUrl_spec FilesRequestUrl_initialUrl_spec toString_def)

theorem constructed_url_string_witness:
  "(\<exists>this. FilesRequestUrl example_platform example_collaborators UPLOAD ''k'' None = Inr this
       \<and> toString this = Inr ''https://generativelanguage.googleapis.com/upload/v1beta/files'')
   \<and> (\<exists>this. FilesRequestUrl example_platform example_collaborators GET ''k'' None = Inr this
       \<and> toString this = Inr ''https://generativelanguage.googleapis.com/v1beta/files'')
   \<and> (\<exists>this. CachedContentUrl example_platform example_collaborators GET ''k''
               (Some (no_options\<lparr>baseUrl := Some ''https://example.com'',
                                   apiVersion := Some ''v1''\<rparr>)) = Inr this
       \<and> toString this = Inr ''https://example.com/v1/cachedContents'')"
proof -
  define ro where "ro = Some (no_options\<lparr>baseUrl := Some ''https://example.com'',
                                   apiVersion := Some ''v1''\<rparr>)"
  define u1 where "u1 = \<lparr>origin = ''https://generativelanguage.googleapis.com'',
      pathname = ''/upload/v1beta/files'', query = None, searchParams = [], fragment = None\<rparr>"
  define u2 where "u2 = \<lparr>origin = ''https://generativelanguage.googleapis.com'',
      pathname = ''/v1beta/files'', query = None, searchParams = [], fragment = None\<rparr>"
  define u3 where "u3 = \<lparr>origin = ''https://example.com'',
      pathname = ''/v1/cachedContents'', query = None, searchParams = [], fragment = None\<rparr>"
  have s1: "spec_url example_collaborators (UPLOAD = UPLOAD) ''files'' (empty_as_absent None)
      = ''https://generativelanguage.googleapis.com/upload/v1beta/files''"
    by code_simp
  have s2: "spec_url example_collaborators (GET = UPLOAD) ''files'' (empty_as_absent None)
      = ''https://generativelanguage.googleapis.com/v1beta/files''"
    by code_simp
  have s3: "spec_url example_collaborators False ''cachedContents'' (empty_as_absent ro)
      = ''https://example.com/v1/cachedContents''"
    unfolding ro_def by code_simp
  have p1: "URL_new example_platform
      ''https://generativelanguage.googleapis.com/upload/v1beta/files'' = Some u1"
    unfolding u1_def by code_simp
  have p2: "URL_new example_platform
      ''https://generativelanguage.googleapis.com/v1beta/files'' = Some u2"
    unfolding u2_def by code_simp
  have p3: "URL_new example_platform ''https://example.com/v1/cachedContents'' = Some u3"
    unfolding u3_def by code_simp
  have t1: "URL_toString u1 = ''https://generativelanguage.googleapis.com/upload/v1beta/files''"
    unfolding u1_def by code_simp
  have t2: "URL_toString u2 = ''https://generativelanguage.googleapis.com/v1beta/files''"
    unfolding u2_def by code_simp
  have t3: "URL_toString u3 = ''https://example.com/v1/cachedContents''"
    unfolding u3_def by code_simp
  have q1: "URL_new example_platform
      (spec_url example_collaborators (UPLOAD = UPLOAD) ''files'' (empty_as_absent None)) = Some u1"
    by (simp only: s1 p1)
  have q2: "URL_new example_platform
      (spec_url example_collaborators (GET = UPLOAD) ''files'' (empty_as_absent None)) = Some u2"
    by (simp only: s2 p2)
  have q3: "URL_new example_platform
      (spec_url example_collaborators False ''cachedContents'' (empty_as_absent ro)) = Some u3"
    by (simp only: s3 p3)
  note T1 = constructed_url_string [of example_platform example_collaborators None UPLOAD "''k''"]
  note T2 = constructed_url_string [of example_platform example_collaborators None GET "''k''"]
  note T3 = constructed_url_string [of example_platform example_collaborators ro GET "''k''"]
  from T1 [THEN conjunct2, THEN conjunct1, rule_format, OF q1] obtain this1 where
    a: "FilesRequestUrl example_platform example_collaborators UPLOAD ''k'' None = Inr this1"
       "toString this1 = Inr (URL_toString u1)"
    by (elim exE conjE)
  from T2 [THEN conjunct2, THEN conjunct1, rule_format, OF q2] obtain this2 where
    b: "FilesRequestUrl example_platform example_collaborators GET ''k'' None = Inr this2"
       "toString this2 = Inr (URL_toString u2)"
    by (elim exE conjE)
  from T3 [THEN conjunct1, rule_format, OF q3] obtain this3 where
    c: "CachedContentUrl example_platform example_collaborators GET ''k'' ro = Inr this3"
       "toString this3 = Inr (URL_toString u3)"
    by (elim exE conjE)
  show ?thesis
  proof (intro conjI)
    show "\<exists>this. FilesRequestUrl example_platform example_collaborators UPLOAD ''k'' None
       = Inr this
       \<and> toString this = Inr ''https://generativelanguage.googleapis.com/upload/v1beta/files''"
      using a unfolding t1 by (intro exI [of _ this1] conjI)
    show "\<exists>this. FilesRequestUrl example_platform example_collaborators GET ''k'' None
       = Inr this
       \<and> toString this = Inr ''https://generativelanguage.googleapis.com/v1beta/files''"
      using b unfolding t2 by (intro exI [of _ this2] conjI)
    show "\<exists>this. CachedContentUrl example_platform example_collaborators GET ''k''
               (Some (no_options\<lparr>baseUrl := Some ''https://example.com'',
                                   apiVersion := Some ''v1''\<rparr>)) = Inr this
       \<and> toString this = Inr ''https://example.com/v1/cachedContents''"
      using c unfolding t3 ro_def by (intro exI [of _ this3] conjI)
  qed
qed

theorem empty_apiVersion_uses_default:
  "map_sum id toString
     (FilesRequestUrl example_platform example_collaborators GET ''k''
        (Some (no_options\<lparr>apiVersion := Some []\<rparr>)))
     = Inr (Inr ''https://generativelanguage.googleapis.com/v1beta/files'')
   \<and> spec_url example_collaborators False ''files'' (Some (no_options\<lparr>apiVersion := Some []\<rparr>))
     = ''https://generativelanguage.googleapis.com//files''"
  by code_simp

subsection \<open>makeServerRequest\<close>

lemma makeServerRequest_init_eq:
  "makeServerRequest_init u hs b sg =
     \<lparr>request_method = taskToMethod (task u), headers = hs,
      body = (if truthy_body b then b else None), init_signal = sg\<rparr>"
  by (cases sg) (simp_all add: makeServerRequest_init_def Let_def)

lemma truthy_body_iff:
  "truthy_body b = ((\<exists>bytes. b = Some (Blob bytes)) \<or> (\<exists>t. b = Some (Text t) \<and> t \<noteq> []))"
proof (cases b)
  case None
  then show ?thesis by simp
next
  case (Some c)
  then show ?thesis by (cases c) simp_all
qed

text \<open>
  C3: for every task in UPLOAD, LIST, GET, DELETE, UPDATE, CREATE (there is no other
  task) the method of the task-to-method table is POST, GET, GET, DELETE, PATCH, POST
  respectively, and makeServerRequest uses it: whatever the headers, the body, the
  options and the transport are, the request descriptor that makeServerRequest hands to
  makeRequest, with the stringified URL and the transport, has the table's method for
  the URL's task; the only other outcome is the TypeError of toString on a URL object
  whose URL state was never assigned.
\<close>

theorem taskToMethod_table:
  "map taskToMethod [UPLOAD, LIST, GET, DELETE, UPDATE, CREATE]
     = [''POST'', ''GET'', ''GET'', ''DELETE'', ''PATCH'', ''POST'']
   \<and> (\<forall>t. t \<in> set [UPLOAD, LIST, GET, DELETE, UPDATE, CREATE])
   \<and> (\<exists>requestInit.
         request_method requestInit = taskToMethod (task u)
         \<and> makeServerRequest fetch w u hs b fetchFn =
             (case url u of
                None \<Rightarrow> Inl TypeError
              | Some x \<Rightarrow> Inr (makeRequest (URL_toString x) requestInit
                                (case fetchFn of None \<Rightarrow> fetch | Some g \<Rightarrow> g)),
              snd (getSignal w (requestOptions u))))"
proof (intro conjI allI)
  show "map taskToMethod [UPLOAD, LIST, GET, DELETE, UPDATE, CREATE]
     = [''POST'', ''GET'', ''GET'', ''DELETE'', ''PATCH'', ''POST'']"
    by simp
  show "t \<in> set [UPLOAD, LIST, GET, DELETE, UPDATE, CREATE]" for t
    by (cases t) simp_all
  obtain sg w' where g: "getSignal w (requestOptions u) = (sg, w')"
    by (cases "getSignal w (requestOptions u)")
  have m: "request_method (makeServerRequest_init u hs b sg) = taskToMethod (task u)"
    by (simp add: makeServerRequest_init_eq)
  have "makeServerRequest fetch w u hs b fetchFn =
             (case url u of
                None \<Rightarrow> Inl TypeError
              | Some x \<Rightarrow> Inr (makeRequest (URL_toString x) (makeServerRequest_init u hs b sg)
                                (case fetchFn of None \<Rightarrow> fetch | Some g \<Rightarrow> g)),
              snd (getSignal w (requestOptions u)))"
    using g by (simp add: makeServerRequest_def toString_def split: option.splits)
  with m show "\<exists>requestInit.
         request_method requestInit = taskToMethod (task u)
         \<and> makeServerRequest fetch w u hs b fetchFn =
             (case url u of
                None \<Rightarrow> Inl TypeError
              | Some x \<Rightarrow> Inr (makeRequest (URL_toString x) requestInit
                                (case fetchFn of None \<Rightarrow> fetch | Some g \<Rightarrow> g)),
              snd (getSignal w (requestOptions u)))"
    by blast
qed

theorem taskToMethod_table_witness:
  "\<exists>requestInit.
     request_method requestInit = ''PATCH''
     \<and> fst (makeServerRequest Pair empty_world
              \<lparr>task = UPDATE, apiKey = ''k'', requestOptions = None,
               url = Some \<lparr>origin = ''https://example.com'', pathname = ''/v1/files/abc'',
                           query = None, searchParams = [], fragment = None\<rparr>\<rparr>
              [] None None)
         = Inr (''https://example.com/v1/files/abc'', requestInit)"
proof -
  define u where "u = \<lparr>task = UPDATE, apiKey = ''k'', requestOptions = None,
               url = Some \<lparr>origin = ''https://example.com'', pathname = ''/v1/files/abc'',
                           query = None, searchParams = [], fragment = None\<rparr>\<rparr>"
  from taskToMethod_table [of u Pair empty_world "[]" None None]
  obtain requestInit where r: "request_method requestInit = taskToMethod (task u)"
    and m: "makeServerRequest Pair empty_world u [] None None =
             (case url u of
                None \<Rightarrow> Inl TypeError
              | Some x \<Rightarrow> Inr (makeRequest (URL_toString x) requestInit
                                (case None of None \<Rightarrow> Pair | Some g \<Rightarrow> g)),
              snd (getSignal empty_world (requestOptions u)))"
    by blast
  from r have "request_method requestInit = ''PATCH''" by (simp add: u_def)
  moreover from m have "fst (makeServerRequest Pair empty_world u [] None None)
      = Inr (''https://example.com/v1/files/abc'', requestInit)"
    by (simp add: u_def URL_toString_def makeRequest_def)
  ultimately show ?thesis unfolding u_def by blast
qed

text \<open>
  C6 (as amended): for every URL object with an initialised URL, header collection,
  optional body and transport function, makeServerRequest builds a request descriptor
  whose method is looked up from the task-to-method mapping, whose headers are the given
  collection, which contains the body exactly when a Blob or a non-empty string was
  supplied (an empty string is left out, as an absent body is) and a cancellation
  signal exactly when getSignal computed one; it invokes the transport (the given one,
  or the platform's fetch when none is given) with the stringified URL and this
  descriptor and returns the transport's result unchanged.
\<close>

theorem makeServerRequest_descriptor:
  assumes "url this = Some x"
  shows "makeServerRequest fetch w this hs b fetchFn =
           (Inr ((case fetchFn of None \<Rightarrow> fetch | Some g \<Rightarrow> g)
                   (URL_toString x)
                   \<lparr>request_method = taskToMethod (task this), headers = hs,
                    body = (if (\<exists>bytes. b = Some (Blob bytes))
                               \<or> (\<exists>t. b = Some (Text t) \<and> t \<noteq> []) then b else None),
                    init_signal = fst (getSignal w (requestOptions this))\<rparr>),
            snd (getSignal w (requestOptions this)))"
proof -
  obtain sg w' where g: "getSignal w (requestOptions this) = (sg, w')"
    by (cases "getSignal w (requestOptions this)")
  have "makeServerRequest fetch w this hs b fetchFn =
          (Inr (makeRequest (URL_toString x) (makeServerRequest_init this hs b sg)
                  (case fetchFn of None \<Rightarrow> fetch | Some g \<Rightarrow> g)), w')"
    using assms g by (simp add: makeServerRequest_def toString_def)
  then show ?thesis
    using g by (simp add: makeRequest_def makeServerRequest_init_eq truthy_body_iff)
qed

theorem makeServerRequest_descriptor_witness:
  "makeServerRequest Pair empty_world
     \<lparr>task = UPLOAD, apiKey = ''k'', requestOptions = Some (no_options\<lparr>timeout := Defined (Num 5)\<rparr>),
      url = Some \<lparr>origin = ''https://example.com'', pathname = ''/upload/v1/files'',
                  query = None, searchParams = [], fragment = None\<rparr>\<rparr>
     [(''x-goog-api-key'', ''k'')] (Some (Text ''data'')) None
   = (Inr (''https://example.com/upload/v1/files'',
           \<lparr>request_method = ''POST'', headers = [(''x-goog-api-key'', ''k'')],
            body = Some (Text ''data''), init_signal = Some 0\<rparr>),
      \<lparr>signals = [\<lparr>aborted = False, listeners = []\<rparr>],
       timers = [(Defined (Num 5), ControllerAbort 0)]\<rparr>)"
proof -
  define x where "x = \<lparr>origin = ''https://example.com'', pathname = ''/upload/v1/files'',
                  query = None, searchParams = [], fragment = None\<rparr>"
  define this where "this = \<lparr>task = UPLOAD, apiKey = ''k'',
      requestOptions = Some (no_options\<lparr>timeout := Defined (Num 5)\<rparr>), url = Some x\<rparr>"
  have h: "url this = Some x" by (simp add: this_def)
  have g: "getSignal empty_world (requestOptions this)
      = (Some 0, \<lparr>signals = [\<lparr>aborted = False, listeners = []\<rparr>],
                  timers = [(Defined (Num 5), ControllerAbort 0)]\<rparr>)"
    by (simp add: this_def getSignal_def optional_timeout_def optional_signal_def no_options_def
        empty_world_def
        new_AbortController_def setTimeout_def)
  have t: "URL_toString x = ''https://example.com/upload/v1/files''"
    by (simp add: x_def URL_toString_def)
  have "makeServerRequest Pair empty_world this [(''x-goog-api-key'', ''k'')]
          (Some (Text ''data'')) None
        = (Inr (''https://example.com/upload/v1/files'',
           \<lparr>request_method = ''POST'', headers = [(''x-goog-api-key'', ''k'')],
            body = Some (Text ''data''), init_signal = Some 0\<rparr>),
      \<lparr>signals = [\<lparr>aborted = False, listeners = []\<rparr>],
       timers = [(Defined (Num 5), ControllerAbort 0)]\<rparr>)"
    using makeServerRequest_descriptor [OF h, of Pair empty_world
        "[(''x-goog-api-key'', ''k'')]" "Some (Text ''data'')" None]
    by (simp add: g t) (simp add: this_def)
  then show ?thesis by (simp add: this_def x_def)
qed

theorem makeServerRequest_empty_string_body:
  "fst (makeServerRequest Pair empty_world
     \<lparr>task = UPLOAD, apiKey = ''k'', requestOptions = None,
      url = Some \<lparr>origin = ''https://example.com'', pathname = ''/upload/v1/files'',
                  query = None, searchParams = [], fragment = None\<rparr>\<rparr>
     [] (Some (Text [])) None)
   = Inr (''https://example.com/upload/v1/files'',
          \<lparr>request_method = ''POST'', headers = [], body = None, init_signal = None\<rparr>)"
  by (simp add: makeServerRequest_def getSignal_def optional_timeout_def optional_signal_def
      toString_def
      URL_toString_def makeRequest_def makeServerRequest_init_def)

subsection \<open>The Headers class: names, values and iteration\<close>

lemma is_tchar_lower_char: "is_tchar c \<Longrightarrow> is_tchar (lower_char c)"
  by (auto simp: is_tchar_def lower_char_def Let_def)

lemma lower_char_idem: "lower_char (lower_char c) = lower_char c"
  by (auto simp: lower_char_def)

lemma lower_idem: "lower (lower s) = lower s"
  by (simp add: lower_def lower_char_idem)

lemma is_header_name_lower: "is_header_name n \<Longrightarrow> is_header_name (lower n)"
  by (auto simp: is_header_name_def lower_def list_all_iff is_tchar_lower_char)

lemma lower_reserved:
  "lower ''x-goog-api-key'' = ''x-goog-api-key''"
  "lower ''x-goog-api-client'' = ''x-goog-api-client''"
  by (simp_all add: lower_def lower_char_def)

lemma set_normalize_value: "set (normalize_value v) \<subseteq> set v"
proof -
  have "set (normalize_value v) \<subseteq> set (dropWhile is_http_whitespace v)"
    unfolding normalize_value_def using set_dropWhileD by fastforce
  also have "\<dots> \<subseteq> set v" using set_dropWhileD by fastforce
  finally show ?thesis .
qed

lemma normalize_value_ends:
  assumes "normalize_value v \<noteq> []"
  shows "\<not> is_http_whitespace (hd (normalize_value v))"
    and "\<not> is_http_whitespace (last (normalize_value v))"
proof -
  define zs where "zs = dropWhile is_http_whitespace v"
  define ys where "ys = dropWhile is_http_whitespace (rev zs)"
  have n: "normalize_value v = rev ys"
    by (simp add: normalize_value_def ys_def zs_def)
  with assms have ys: "ys \<noteq> []" by simp
  then have "\<not> is_http_whitespace (hd ys)"
    unfolding ys_def by (rule hd_dropWhile)
  then show "\<not> is_http_whitespace (last (normalize_value v))"
    using ys by (simp add: n last_rev)
  from ys have zs: "zs \<noteq> []" by (auto simp: ys_def)
  then have hz: "\<not> is_http_whitespace (hd zs)"
    unfolding zs_def by (rule hd_dropWhile)
  obtain ws where ws: "rev zs = ws @ ys"
    unfolding ys_def by (metis takeWhile_dropWhile_id)
  then have "zs = rev ys @ rev ws" by (metis rev_append rev_rev_ident)
  with ys have "hd zs = hd (rev ys)" by simp
  with hz show "\<not> is_http_whitespace (hd (normalize_value v))"
    by (simp add: n)
qed

lemma is_header_value_normalize:
  assumes "list_all is_value_byte v"
  shows "is_header_value (normalize_value v)"
proof -
  have "list_all is_value_byte (normalize_value v)"
    using assms set_normalize_value [of v] by (auto simp: list_all_iff)
  moreover have "normalize_value v \<noteq> [] \<Longrightarrow>
      (of_char (hd (normalize_value v)) :: nat) \<notin> {9, 32}
      \<and> (of_char (last (normalize_value v)) :: nat) \<notin> {9, 32}"
    using normalize_value_ends [of v] by (auto simp: is_http_whitespace_def)
  ultimately show ?thesis by (simp add: is_header_value_def)
qed

lemma Headers_append_Inr:
  assumes "is_header_name n" and "is_header_value (normalize_value v)"
  shows "Headers_append h n v =
           Inr (h @ [(case find (\<lambda>e. same_name (fst e) n) h of
                        Some e \<Rightarrow> fst e | None \<Rightarrow> n, normalize_value v)])"
  using assms by (simp add: Headers_append_def Let_def)

lemma Headers_append_TypeError:
  "Headers_append h n v = Inl err \<Longrightarrow> err = TypeError"
  by (auto simp: Headers_append_def Let_def split: if_splits)

lemma list_all_join_values:
  "list_all (list_all is_value_byte) vs \<Longrightarrow> list_all is_value_byte (join_values vs)"
  by (induction vs rule: join_values.induct) (simp_all add: is_value_byte_def)

lemma set_Headers_entries:
  "set (Headers_entries h) =
     (\<Union>name \<in> (\<lambda>e. lower (fst e)) ` set h.
        if name = ''set-cookie'' then (\<lambda>v. (name, v)) ` set (values_of h name)
        else {(name, join_values (values_of h name))})"
  by (auto simp: Headers_entries_def split: if_splits)

lemma Headers_entries_fst:
  assumes "e \<in> set (Headers_entries h)"
  shows "\<exists>e0 \<in> set h. fst e = lower (fst e0)"
proof -
  from assms obtain e0 where e0: "e0 \<in> set h"
    and e: "e \<in> (if lower (fst e0) = ''set-cookie''
                  then (\<lambda>v. (lower (fst e0), v)) ` set (values_of h (lower (fst e0)))
                  else {(lower (fst e0), join_values (values_of h (lower (fst e0))))})"
    unfolding set_Headers_entries by blast
  from e have "fst e = lower (fst e0)"
    by (cases "lower (fst e0) = ''set-cookie''") auto
  with e0 show ?thesis by blast
qed


lemma values_of_bytes:
  assumes "Headers_wf h"
  shows "list_all (list_all is_value_byte) (values_of h name)"
  using assms by (auto simp: Headers_wf_def values_of_def list_all_iff is_header_value_def)

lemma Headers_entries_valid:
  assumes "Headers_wf h" and "e \<in> set (Headers_entries h)"
  shows "is_header_name (fst e) \<and> lower (fst e) = fst e \<and> list_all is_value_byte (snd e)"
proof -
  from assms(2) obtain e0 where e0: "e0 \<in> set h" "fst e = lower (fst e0)"
    using Headers_entries_fst by blast
  with assms(1) have "is_header_name (fst e0)"
    by (auto simp: Headers_wf_def list_all_iff)
  then have n: "is_header_name (fst e)" "lower (fst e) = fst e"
    using e0 by (simp_all add: is_header_name_lower lower_idem)
  have all: "list_all (list_all is_value_byte) (values_of h (fst e))"
    using assms(1) by (rule values_of_bytes)
  have "snd e \<in> set (values_of h (fst e)) \<or> snd e = join_values (values_of h (fst e))"
    using assms(2) by (auto simp: set_Headers_entries split: if_splits)
  then have "list_all is_value_byte (snd e)"
    using all list_all_join_values [OF all] by (auto simp: list_all_iff)
  with n show ?thesis by simp
qed

lemma Headers_append_wf:
  assumes "Headers_wf h" and "Headers_append h n v = Inr h'"
  shows "Headers_wf h' \<and> (\<lambda>e. lower (fst e)) ` set h' = insert (lower n) ((\<lambda>e. lower (fst e)) ` set h)"
proof -
  from assms(2) have ok: "is_header_name n" "is_header_value (normalize_value v)"
    by (auto simp: Headers_append_def Let_def split: if_splits)
  define nm where "nm = (case find (\<lambda>e. same_name (fst e) n) h of Some e \<Rightarrow> fst e | None \<Rightarrow> n)"
  have h': "h' = h @ [(nm, normalize_value v)]"
    using assms(2) ok by (simp add: Headers_append_Inr nm_def)
  have nm: "is_header_name nm \<and> lower nm = lower n"
  proof (cases "find (\<lambda>e. same_name (fst e) n) h")
    case None
    with ok show ?thesis by (simp add: nm_def)
  next
    case (Some e)
    then have "e \<in> set h" "same_name (fst e) n"
      by (auto simp: find_Some_iff in_set_conv_nth)
    with assms(1) Some show ?thesis
      by (auto simp: nm_def Headers_wf_def list_all_iff same_name_def)
  qed
  with assms(1) ok show ?thesis
    by (auto simp: h' Headers_wf_def)
qed

lemma Headers_fill_wf:
  "Headers_wf h \<Longrightarrow> Headers_fill h init = Inr c \<Longrightarrow>
   Headers_wf c \<and> (\<lambda>e. lower (fst e)) ` set c = (\<lambda>e. lower (fst e)) ` (set h \<union> set init)"
proof (induction init arbitrary: h)
  case Nil
  then show ?case by simp
next
  case (Cons e es)
  from Cons.prems(2) obtain h' where a: "Headers_append h (fst e) (snd e) = Inr h'"
    and f: "Headers_fill h' es = Inr c"
    by (auto split: sum.splits)
  from Headers_append_wf [OF Cons.prems(1) a] have wf': "Headers_wf h'"
    and names: "(\<lambda>e. lower (fst e)) ` set h' = insert (lower (fst e)) ((\<lambda>e. lower (fst e)) ` set h)"
    by simp_all
  from Cons.IH [OF wf' f] names show ?case by auto
qed

lemma convert_customHeaders_wf:
  assumes "CustomHeaders_wf ch" and "convert_customHeaders ch = Inr c"
  shows "Headers_wf c \<and> (\<lambda>e. lower (fst e)) ` set c = (\<lambda>e. lower (fst e)) ` set (supplied_headers ch)"
proof (cases ch)
  case (HeadersObject h)
  with assms show ?thesis by (simp add: convert_customHeaders_def)
next
  case (PlainObject init)
  with assms(2) have "Headers_fill [] init = Inr c"
    by (auto simp: convert_customHeaders_def Headers_new_def split: sum.splits)
  from Headers_fill_wf [OF _ this] PlainObject show ?thesis
    by (simp add: Headers_wf_def)
qed


subsection \<open>The merge loop of getHeaders\<close>


lemma getHeaders_loop_merge:
  assumes "\<forall>e \<in> set hs. lower (fst e) = fst e"
    and "\<forall>e \<in> set es. is_header_name (fst e) \<and> lower (fst e) = fst e
            \<and> list_all is_value_byte (snd e) \<and> fst e \<notin> reserved_names"
  shows "getHeaders_loop hs es = Inr (hs @ map (\<lambda>e. (fst e, normalize_value (snd e))) es)"
  using assms
proof (induction es arbitrary: hs)
  case Nil
  then show ?case by simp
next
  case (Cons e es)
  from Cons.prems(2) have e: "is_header_name (fst e)" "lower (fst e) = fst e"
    "is_header_value (normalize_value (snd e))" "fst e \<notin> reserved_names"
    by (simp_all add: is_header_value_normalize)
  have nm: "(case find (\<lambda>x. same_name (fst x) (fst e)) hs of Some x \<Rightarrow> fst x | None \<Rightarrow> fst e) = fst e"
  proof (cases "find (\<lambda>x. same_name (fst x) (fst e)) hs")
    case None
    then show ?thesis by simp
  next
    case (Some x)
    then have "x \<in> set hs" "same_name (fst x) (fst e)"
      by (auto simp: find_Some_iff in_set_conv_nth)
    with Cons.prems(1) e(2) have "fst x = fst e"
      by (auto simp: same_name_def)
    with Some show ?thesis by simp
  qed
  have a: "Headers_append hs (fst e) (snd e) = Inr (hs @ [(fst e, normalize_value (snd e))])"
    using e by (simp add: Headers_append_Inr nm)
  have "getHeaders_loop (hs @ [(fst e, normalize_value (snd e))]) es
      = Inr ((hs @ [(fst e, normalize_value (snd e))]) @ map (\<lambda>e. (fst e, normalize_value (snd e))) es)"
    using Cons.prems e by (intro Cons.IH) auto
  with a e(4) show ?case by (simp add: reserved_names_def)
qed

subsection \<open>getHeaders\<close>

lemma reserved_header_names:
  "is_header_name ''x-goog-api-client''" "is_header_name ''x-goog-api-key''"
  by (simp_all add: is_header_name_def is_tchar_def)

lemma getHeaders_mandatory:
  assumes "is_header_value (normalize_value (getClientHeaders col (requestOptions u)))"
    and "is_header_value (normalize_value (apiKey u))"
  shows "getHeaders col u =
     (case Option.bind (requestOptions u) customHeaders of
        None \<Rightarrow> Inr [(''x-goog-api-client'', normalize_value (getClientHeaders col (requestOptions u))),
                     (''x-goog-api-key'', normalize_value (apiKey u))]
      | Some ch \<Rightarrow>
          (case convert_customHeaders ch of
             Inl err \<Rightarrow> Inl err
           | Inr c \<Rightarrow> getHeaders_loop
                [(''x-goog-api-client'', normalize_value (getClientHeaders col (requestOptions u))),
                 (''x-goog-api-key'', normalize_value (apiKey u))] (Headers_entries c)))"
proof -
  have a: "Headers_append [] ''x-goog-api-client'' (getClientHeaders col (requestOptions u))
      = Inr [(''x-goog-api-client'', normalize_value (getClientHeaders col (requestOptions u)))]"
    using assms(1) by (simp add: Headers_append_Inr reserved_header_names)
  have "\<not> same_name ''x-goog-api-client'' ''x-goog-api-key''"
    by (simp add: same_name_def lower_reserved)
  then have b: "Headers_append
        [(''x-goog-api-client'', normalize_value (getClientHeaders col (requestOptions u)))]
        ''x-goog-api-key'' (apiKey u)
      = Inr [(''x-goog-api-client'', normalize_value (getClientHeaders col (requestOptions u))),
             (''x-goog-api-key'', normalize_value (apiKey u))]"
    using assms(2) by (simp add: Headers_append_Inr reserved_header_names)
  show ?thesis
    unfolding getHeaders_def by (simp only: a b sum.case)
qed









lemma values_of_append:
  "values_of (hs @ hs') name = values_of hs name @ values_of hs' name"
  by (simp add: values_of_def)

lemma values_of_none:
  "\<forall>e \<in> set hs. \<not> same_name (fst e) name \<Longrightarrow> values_of hs name = []"
  by (induction hs) (simp_all add: values_of_def)

text \<open>
  C7 (as amended): for every URL object whose client-identity value and API key are
  accepted as header values and whose customHeaders, if any, convert to a header
  collection that holds no reserved name in any letter case, getHeaders returns the
  collection made of x-goog-api-client with the client-identity value, x-goog-api-key
  with the URL's apiKey, and then every entry of the converted custom headers as the
  iteration yields them (name in lower case, the values of a repeated name combined),
  each value trimmed of surrounding whitespace; the two reserved names carry only the
  mandatory values.
\<close>

theorem getHeaders_merges_custom_headers:
  assumes "is_header_value (normalize_value (getClientHeaders col (requestOptions u)))"
    and "is_header_value (normalize_value (apiKey u))"
    and "case Option.bind (requestOptions u) customHeaders of
           None \<Rightarrow> c = []
         | Some ch \<Rightarrow> CustomHeaders_wf ch \<and> convert_customHeaders ch = Inr c"
    and "\<forall>e \<in> set c. lower (fst e) \<notin> reserved_names"
  shows "\<exists>hs. getHeaders col u = Inr hs
           \<and> hs = [(''x-goog-api-client'', normalize_value (getClientHeaders col (requestOptions u))),
                   (''x-goog-api-key'', normalize_value (apiKey u))]
                  @ map (\<lambda>e. (fst e, normalize_value (snd e))) (Headers_entries c)
           \<and> Headers_get hs ''x-goog-api-client''
               = Some (normalize_value (getClientHeaders col (requestOptions u)))
           \<and> Headers_get hs ''x-goog-api-key'' = Some (normalize_value (apiKey u))
           \<and> (\<forall>e \<in> set (Headers_entries c). (fst e, normalize_value (snd e)) \<in> set hs)"
proof -
  define H where "H = [(''x-goog-api-client'', normalize_value (getClientHeaders col (requestOptions u))),
                       (''x-goog-api-key'', normalize_value (apiKey u))]"
  define R where "R = map (\<lambda>e. (fst e, normalize_value (snd e))) (Headers_entries c)"
  have wfc: "Headers_wf c"
  proof (cases "Option.bind (requestOptions u) customHeaders")
    case None
    with assms(3) show ?thesis by (simp add: Headers_wf_def)
  next
    case (Some ch)
    with assms(3) show ?thesis using convert_customHeaders_wf [of ch c] by simp
  qed
  have ent: "\<forall>e \<in> set (Headers_entries c). is_header_name (fst e) \<and> lower (fst e) = fst e
              \<and> list_all is_value_byte (snd e) \<and> fst e \<notin> reserved_names"
  proof
    fix e assume e: "e \<in> set (Headers_entries c)"
    from Headers_entries_fst [OF e] assms(4) have "fst e \<notin> reserved_names" by auto
    with Headers_entries_valid [OF wfc e]
    show "is_header_name (fst e) \<and> lower (fst e) = fst e
          \<and> list_all is_value_byte (snd e) \<and> fst e \<notin> reserved_names"
      by simp
  qed
  have lowH: "\<forall>e \<in> set H. lower (fst e) = fst e"
    by (simp add: H_def lower_reserved)
  have loop: "getHeaders_loop H (Headers_entries c) = Inr (H @ R)"
    unfolding R_def using lowH ent by (rule getHeaders_loop_merge)
  have empty: "Headers_entries [] = []" by (simp add: Headers_entries_def)
  have g: "getHeaders col u = Inr (H @ R)"
  proof (cases "Option.bind (requestOptions u) customHeaders")
    case None
    with assms(3) have "R = []" by (simp add: R_def empty)
    with None show ?thesis
      using getHeaders_mandatory [OF assms(1,2)] by (simp add: H_def)
  next
    case (Some ch)
    with assms(3) have "convert_customHeaders ch = Inr c" by simp
    with Some loop show ?thesis
      using getHeaders_mandatory [OF assms(1,2)] by (simp add: H_def)
  qed
  have noR: "\<forall>e \<in> set R. \<not> same_name (fst e) name" if "name \<in> reserved_names" for name
  proof
    fix e assume "e \<in> set R"
    then obtain e' where e': "e' \<in> set (Headers_entries c)" "fst e = fst e'"
      by (auto simp: R_def)
    with ent have "lower (fst e) = fst e" "fst e \<notin> reserved_names" by auto
    moreover from that have "lower name = name"
      by (auto simp: reserved_names_def lower_reserved)
    ultimately show "\<not> same_name (fst e) name"
      using that by (auto simp: same_name_def)
  qed
  have nk: "\<not> same_name ''x-goog-api-client'' ''x-goog-api-key''"
       "\<not> same_name ''x-goog-api-key'' ''x-goog-api-client''"
    by (simp_all add: same_name_def lower_reserved)
  have "values_of (H @ R) ''x-goog-api-client''
      = [normalize_value (getClientHeaders col (requestOptions u))]"
    using noR [of "''x-goog-api-client''"] nk
    by (simp add: values_of_append values_of_none reserved_names_def)
       (simp add: values_of_def H_def same_name_def)
  then have gc: "Headers_get (H @ R) ''x-goog-api-client''
      = Some (normalize_value (getClientHeaders col (requestOptions u)))"
    by (simp add: Headers_get_def)
  have "values_of (H @ R) ''x-goog-api-key'' = [normalize_value (apiKey u)]"
    using noR [of "''x-goog-api-key''"] nk
    by (simp add: values_of_append values_of_none reserved_names_def)
       (simp add: values_of_def H_def same_name_def)
  then have gk: "Headers_get (H @ R) ''x-goog-api-key'' = Some (normalize_value (apiKey u))"
    by (simp add: Headers_get_def)
  have mem: "\<forall>e \<in> set (Headers_entries c). (fst e, normalize_value (snd e)) \<in> set (H @ R)"
    by (auto simp: R_def)
  from g gc gk mem show ?thesis
    unfolding H_def R_def by blast
qed

theorem getHeaders_merges_custom_headers_witness:
  "getHeaders example_collaborators (example_url (PlainObject [(''Foo'', ''bar'')]))
     = Inr [(''x-goog-api-client'', ''genai-js/0.21.0''), (''x-goog-api-key'', ''k''),
            (''foo'', ''bar'')]"
proof -
  define ch where "ch = PlainObject [(''Foo'', ''bar'')]"
  define c :: Headers where "c = [(''Foo'', ''bar'')]"
  have a: "is_header_value (normalize_value (getClientHeaders example_collaborators
        (requestOptions (example_url ch))))"
    unfolding ch_def by code_simp
  have b: "is_header_value (normalize_value (apiKey (example_url ch)))"
    unfolding ch_def by code_simp
  have cv: "convert_customHeaders ch = Inr c"
    unfolding ch_def c_def by code_simp
  have d: "case Option.bind (requestOptions (example_url ch)) customHeaders of
           None \<Rightarrow> c = []
         | Some ch \<Rightarrow> CustomHeaders_wf ch \<and> convert_customHeaders ch = Inr c"
    using cv by (simp add: example_url_def no_options_def ch_def)
  have l: "lower ''Foo'' = ''foo''" by code_simp
  have e: "\<forall>e \<in> set c. lower (fst e) \<notin> reserved_names"
    by (simp add: c_def l reserved_names_def)
  have v: "normalize_value (getClientHeaders example_collaborators
        (requestOptions (example_url ch))) = ''genai-js/0.21.0''"
    "normalize_value (apiKey (example_url ch)) = ''k''"
    "map (\<lambda>e. (fst e, normalize_value (snd e))) (Headers_entries c) = [(''foo'', ''bar'')]"
    unfolding ch_def c_def by code_simp+
  from getHeaders_merges_custom_headers [OF a b d e]
  have "getHeaders example_collaborators (example_url ch)
     = Inr ([(''x-goog-api-client'', normalize_value (getClientHeaders example_collaborators
                (requestOptions (example_url ch)))),
            (''x-goog-api-key'', normalize_value (apiKey (example_url ch)))]
           @ map (\<lambda>e. (fst e, normalize_value (snd e))) (Headers_entries c))"
    by blast
  then show ?thesis unfolding v unfolding ch_def by simp
qed

theorem getHeaders_unconvertible_custom_headers:
  "fst ` set (supplied_headers (PlainObject [(''bad name'', ''x'')])) \<inter> reserved_names = {}
   \<and> getHeaders example_collaborators (example_url (PlainObject [(''bad name'', ''x'')]))
       = Inl (GoogleGenerativeAIRequestInputError UnableToConvert)"
proof
  show "fst ` set (supplied_headers (PlainObject [(''bad name'', ''x'')])) \<inter> reserved_names = {}"
    by (simp add: reserved_names_def)
  show "getHeaders example_collaborators (example_url (PlainObject [(''bad name'', ''x'')]))
       = Inl (GoogleGenerativeAIRequestInputError UnableToConvert)"
    by code_simp
qed

subsection \<open>Abort events after getSignal\<close>

lemma signal_abort_length:
  "length (signals (signal_abort js w)) = length (signals w)"
  by (induction js w rule: signal_abort.induct) auto

lemma signal_abort_keeps:
  "i < length (signals w) \<Longrightarrow> aborted (signals w ! i) \<Longrightarrow>
   aborted (signals (signal_abort js w) ! i)"
proof (induction js w rule: signal_abort.induct)
  case (1 w)
  then show ?case by simp
next
  case (2 j js w)
  show ?case
  proof (cases "j < length (signals w) \<and> \<not> aborted (signals w ! j)")
    case True
    let ?w = "w\<lparr>signals := (signals w)[j := (signals w ! j)\<lparr>aborted := True\<rparr>]\<rparr>"
    have "aborted (signals ?w ! i)"
      using "2.prems" by (cases "i = j") simp_all
    moreover have "i < length (signals ?w)" using "2.prems" by simp
    ultimately show ?thesis using True "2.IH"(1) by simp
  next
    case False
    then have "signal_abort (j # js) w = signal_abort js w" by auto
    with False 2 show ?thesis by simp
  qed
qed

lemma signal_abort_fires:
  "i \<in> set js \<Longrightarrow> i < length (signals w) \<Longrightarrow> aborted (signals (signal_abort js w) ! i)"
proof (induction js w rule: signal_abort.induct)
  case (1 w)
  then show ?case by simp
next
  case (2 j js w)
  let ?w = "w\<lparr>signals := (signals w)[j := (signals w ! j)\<lparr>aborted := True\<rparr>]\<rparr>"
  let ?js = "map callback_target (listeners (signals w ! j)) @ js"
  show ?case
  proof (cases "j < length (signals w) \<and> \<not> aborted (signals w ! j)")
    case True
    show ?thesis
    proof (cases "i = j")
      case eq: True
      have "aborted (signals ?w ! i)" using True eq by simp
      moreover have "i < length (signals ?w)" using "2.prems" by simp
      ultimately have "aborted (signals (signal_abort ?js ?w) ! i)"
        by (rule signal_abort_keeps [rotated])
      with True show ?thesis by simp
    next
      case False
      with "2.prems" have "i \<in> set ?js" "i < length (signals ?w)" by simp_all
      with True "2.IH"(1) show ?thesis by simp
    qed
  next
    case False
    then have eq: "signal_abort (j # js) w = signal_abort js w" by auto
    show ?thesis
    proof (cases "i = j")
      case True
      with False "2.prems" have "aborted (signals w ! i)" by simp
      with "2.prems" have "aborted (signals (signal_abort js w) ! i)"
        by (intro signal_abort_keeps) simp_all
      with eq show ?thesis by simp
    next
      case ne: False
      with "2.prems" have "i \<in> set js" by simp
      with False "2.IH"(2) "2.prems" have "aborted (signals (signal_abort js w) ! i)"
        by simp
      with eq show ?thesis by simp
    qed
  qed
qed

text \<open>
  The wiring itself works for an abort that comes after the call: when the external
  signal is not yet aborted, aborting it later fires the signal that getSignal returned.
\<close>

lemma getSignal_later_abort_fires:
  assumes "optional_signal ro = Defined s"
    and "s < length (signals w)"
    and "\<not> aborted (signals w ! s)"
  shows "aborted (signals (signal_abort [s] (snd (getSignal w ro))) ! length (signals w))"
proof -
  define w' where "w' = snd (getSignal w ro)"
  have len: "length (signals w') = Suc (length (signals w))"
    and s': "\<not> aborted (signals w' ! s)"
    and lis: "ControllerAbort (length (signals w)) \<in> set (listeners (signals w' ! s))"
    using assms
    by (auto simp: w'_def getSignal_def new_AbortController_def setTimeout_def
        addEventListener_def Let_def nth_append nth_list_update)
  let ?w = "w'\<lparr>signals := (signals w')[s := (signals w' ! s)\<lparr>aborted := True\<rparr>]\<rparr>"
  let ?js = "map callback_target (listeners (signals w' ! s)) @ []"
  have "callback_target (ControllerAbort (length (signals w))) \<in> set ?js"
    using lis by (simp del: callback_target.simps)
  then have "length (signals w) \<in> set ?js" by simp
  moreover have "length (signals w) < length (signals ?w)" using len by simp
  ultimately have "aborted (signals (signal_abort ?js ?w) ! length (signals w))"
    by (rule signal_abort_fires)
  moreover have "signal_abort [s] w' = signal_abort ?js ?w"
    using assms(2) len s' by simp
  ultimately show ?thesis by (simp add: w'_def)
qed

end
